theory Spec2Isabelle
  imports Complex_Main "HOL-Library.Log_Nat"
begin

unbundle bit_operations_syntax

section \<open>The JavaScript values the module handles\<close>

text \<open>
  A JavaScript \<open>number\<close> is an IEEE 754 binary64 value: not-a-number, one of the two
  infinities, or a finite value, carried here by the rational it denotes. The two zeros
  are identified: no operation of the module tells them apart.
\<close>

datatype jsnum = NaN | PInf | NInf | Fin rat

text \<open>
  The values a caller can hand to \<open>generate\<close>. A \<open>Date\<close> object carries its time value
  (what \<open>getTime()\<close> returns); every other object is \<open>JSObject\<close>.
\<close>

datatype jsval =
    JSUndefined
  | JSNull
  | JSBoolean bool
  | JSNumber jsnum
  | JSString string
  | JSBigInt int
  | JSSymbol
  | JSDate jsnum
  | JSObject
  | JSFunction

fun typeof :: "jsval \<Rightarrow> string" where
  "typeof JSUndefined = ''undefined''"
| "typeof JSNull = ''object''"
| "typeof (JSBoolean b) = ''boolean''"
| "typeof (JSNumber x) = ''number''"
| "typeof (JSString s) = ''string''"
| "typeof (JSBigInt n) = ''bigint''"
| "typeof JSSymbol = ''symbol''"
| "typeof (JSDate tv) = ''object''"
| "typeof JSObject = ''object''"
| "typeof JSFunction = ''function''"

text \<open>
  What the module throws: the \<open>TypeError\<close> of \<open>generate\<close> with its message, the
  \<open>RangeError\<close> of \<open>BigInt(number)\<close> on a number that is not an integer, and the
  \<open>SyntaxError\<close> of \<open>BigInt(string)\<close> on a string that is not an integer literal.
\<close>

datatype error = TypeError string | RangeError | SyntaxError

subsection \<open>Rounding to binary64\<close>

definition pow2 :: "int \<Rightarrow> rat" where
  "pow2 e = (if 0 \<le> e then 2 ^ nat e else 1 / 2 ^ nat (- e))"

text \<open>The exponent \<open>e\<close> with \<open>2 ^ e \<le> a < 2 ^ (e + 1)\<close>, for a positive \<open>a\<close>.\<close>

definition floor_log2 :: "rat \<Rightarrow> int" where
  "floor_log2 a = (if 1 \<le> a then bitlen \<lfloor>a\<rfloor> - 1 else - bitlen (\<lceil>1 / a\<rceil> - 1))"

definition round_half_even :: "rat \<Rightarrow> int" where
  "round_half_even m =
     (let f = \<lfloor>m\<rfloor>; d = m - of_int f
      in if d < 1 / 2 then f
         else if 1 / 2 < d then f + 1
         else if even f then f else f + 1)"

text \<open>
  Round to nearest, ties to even, with a 53-bit significand; exponents below -1022 are
  subnormal, and a result of magnitude \<open>2 ^ 1024\<close> or more is an infinity.
\<close>

definition round_double :: "rat \<Rightarrow> jsnum" where
  "round_double q =
     (if q = 0 then Fin 0
      else
        let a = \<bar>q\<bar>;
            e = max (floor_log2 a) (- 1022);
            ulp = pow2 (e - 52);
            r = of_int (round_half_even (a / ulp)) * ulp
        in if 2 ^ 1024 \<le> r then (if 0 < q then PInf else NInf)
           else Fin (sgn q * r))"

subsection \<open>Operations on numbers\<close>

fun isNaN :: "jsnum \<Rightarrow> bool" where
  "isNaN NaN = True"
| "isNaN x = False"

fun num_neg :: "jsnum \<Rightarrow> jsnum" where
  "num_neg NaN = NaN"
| "num_neg PInf = NInf"
| "num_neg NInf = PInf"
| "num_neg (Fin q) = Fin (- q)"

fun num_add :: "jsnum \<Rightarrow> jsnum \<Rightarrow> jsnum" where
  "num_add NaN y = NaN"
| "num_add x NaN = NaN"
| "num_add PInf NInf = NaN"
| "num_add NInf PInf = NaN"
| "num_add PInf y = PInf"
| "num_add NInf y = NInf"
| "num_add x PInf = PInf"
| "num_add x NInf = NInf"
| "num_add (Fin a) (Fin b) = round_double (a + b)"

definition num_sub :: "jsnum \<Rightarrow> jsnum \<Rightarrow> jsnum" where
  "num_sub x y = num_add x (num_neg y)"

fun Math_abs :: "jsnum \<Rightarrow> jsnum" where
  "Math_abs NaN = NaN"
| "Math_abs PInf = PInf"
| "Math_abs NInf = PInf"
| "Math_abs (Fin q) = Fin \<bar>q\<bar>"

subsection \<open>BigInt\<close>

text \<open>
  A \<open>bigint\<close> is an \<open>int\<close>: \<open><<\<close> is \<open>push_bit\<close>, \<open>>>\<close> is \<open>drop_bit\<close> (both on the
  two's complement of unbounded width), \<open>|\<close> is \<open>OR\<close> and \<open>&\<close> is \<open>AND\<close>.
\<close>

text \<open>\<open>BigInt(x)\<close> on a number: a \<open>RangeError\<close> unless the number is an integer.\<close>

fun NumberToBigInt :: "jsnum \<Rightarrow> error + int" where
  "NumberToBigInt (Fin q) = (if q = of_int \<lfloor>q\<rfloor> then Inr \<lfloor>q\<rfloor> else Inl RangeError)"
| "NumberToBigInt x = Inl RangeError"

text \<open>\<open>Number(n)\<close> on a bigint: the nearest binary64 value.\<close>

definition BigIntToNumber :: "int \<Rightarrow> jsnum" where
  "BigIntToNumber n = round_double (of_int n)"

definition digit_char :: "nat \<Rightarrow> char" where
  "digit_char d = ''0123456789abcdefghijklmnopqrstuvwxyz'' ! d"

function digits_of :: "nat \<Rightarrow> nat \<Rightarrow> string" where
  "digits_of r n =
     (if r < 2 \<or> n < r then [digit_char n]
      else digits_of r (n div r) @ [digit_char (n mod r)])"
  by pat_completeness auto
termination
  by (relation "measure snd") auto

declare digits_of.simps [simp del]

text \<open>\<open>n.toString(r)\<close> on a bigint, for a radix from 2 to 36.\<close>

definition BigInt_toString :: "nat \<Rightarrow> int \<Rightarrow> string" where
  "BigInt_toString r n =
     (if n < 0 then CHR ''-'' # digits_of r (nat (- n)) else digits_of r (nat n))"

text \<open>\<open>s.padStart(n, c)\<close> with a fill string of the single character \<open>c\<close>.\<close>

definition padStart :: "nat \<Rightarrow> char \<Rightarrow> string \<Rightarrow> string" where
  "padStart n c s = replicate (n - length s) c @ s"

text \<open>
  \<open>BigInt(s)\<close> on a string follows the grammar \<open>StringIntegerLiteral\<close> of the language:
  white space is trimmed on both sides, what is left is empty (the value 0), a decimal
  literal with an optional sign, or an unsigned literal with the prefix \<open>0x\<close>, \<open>0o\<close> or
  \<open>0b\<close> (in either case); anything else is a \<open>SyntaxError\<close>. A \<open>char\<close> stands for a code
  unit below 256, so of the white space of the language the model has TAB, LF, VT, FF,
  CR, SP and NBSP.
\<close>

definition is_whitespace :: "char \<Rightarrow> bool" where
  "is_whitespace c \<longleftrightarrow>
     c = CHR 0x09 \<or> c = CHR 0x0A \<or> c = CHR 0x0B \<or> c = CHR 0x0C \<or> c = CHR 0x0D
     \<or> c = CHR 0x20 \<or> c = CHR 0xA0"

definition trim :: "string \<Rightarrow> string" where
  "trim s = rev (dropWhile is_whitespace (rev (dropWhile is_whitespace s)))"

definition digit_value :: "char \<Rightarrow> nat option" where
  "digit_value c =
     (let k = (of_char c :: nat)
      in if 48 \<le> k \<and> k \<le> 57 then Some (k - 48)
         else if 97 \<le> k \<and> k \<le> 122 then Some (k - 87)
         else if 65 \<le> k \<and> k \<le> 90 then Some (k - 55)
         else None)"

fun parse_acc :: "nat \<Rightarrow> nat \<Rightarrow> string \<Rightarrow> nat option" where
  "parse_acc r acc [] = Some acc"
| "parse_acc r acc (c # cs) =
     (case digit_value c of
        None \<Rightarrow> None
      | Some d \<Rightarrow> if d < r then parse_acc r (acc * r + d) cs else None)"

definition parse_digits :: "nat \<Rightarrow> string \<Rightarrow> nat option" where
  "parse_digits r s = (if s = [] then None else parse_acc r 0 s)"

definition parse_signed :: "string \<Rightarrow> int option" where
  "parse_signed t =
     (case t of
        [] \<Rightarrow> None
      | c # cs \<Rightarrow>
          if c = CHR ''+'' then map_option int (parse_digits 10 cs)
          else if c = CHR ''-'' then map_option (\<lambda>n. - int n) (parse_digits 10 cs)
          else map_option int (parse_digits 10 t))"

definition StringToBigInt :: "string \<Rightarrow> int option" where
  "StringToBigInt s =
     (let t = trim s
      in case t of
           [] \<Rightarrow> Some 0
         | [c] \<Rightarrow> parse_signed t
         | c1 # c2 # cs \<Rightarrow>
             if c1 = CHR ''0'' \<and> (c2 = CHR ''x'' \<or> c2 = CHR ''X'')
               then map_option int (parse_digits 16 cs)
             else if c1 = CHR ''0'' \<and> (c2 = CHR ''o'' \<or> c2 = CHR ''O'')
               then map_option int (parse_digits 8 cs)
             else if c1 = CHR ''0'' \<and> (c2 = CHR ''b'' \<or> c2 = CHR ''B'')
               then map_option int (parse_digits 2 cs)
             else parse_signed t)"

definition StringToBigInt_or_throw :: "string \<Rightarrow> error + int" where
  "StringToBigInt_or_throw s =
     (case StringToBigInt s of None \<Rightarrow> Inl SyntaxError | Some n \<Rightarrow> Inr n)"

section \<open>The module\<close>

definition EPOCH :: int where
  "EPOCH = 1420070400000"

text \<open>The module variable \<open>increment\<close>, as the module is loaded.\<close>

definition initial_increment :: int where
  "initial_increment = 0"

record DeconstructedSnowflake =
  timestamp :: jsnum
  workerId :: jsnum
  processId :: jsnum
  increment :: jsnum
  binary :: string

text \<open>
  \<open>generate(timestamp)\<close>. The module variable \<open>increment\<close> is passed in as \<open>inc\<close> and
  returned updated; \<open>now\<close> is what \<open>Date.now()\<close> gives, read when the argument is
  \<open>undefined\<close>. The reset of the counter comes before \<open>BigInt(timestamp)\<close>, which may
  throw, and \<open>increment++\<close> comes after it.
\<close>

definition generate :: "jsval \<Rightarrow> int \<Rightarrow> int \<Rightarrow> (error + string) \<times> int" where
  "generate arg now inc =
     (let t0 = (case arg of JSUndefined \<Rightarrow> JSNumber (Fin (of_int now)) | _ \<Rightarrow> arg);
          t1 = (case t0 of JSDate tv \<Rightarrow> JSNumber tv | _ \<Rightarrow> t0)
      in case t1 of
           JSNumber x \<Rightarrow>
             if isNaN x
               then (Inl (TypeError (''Invalid timestamp: expected number but received '' @ typeof t1)), inc)
             else
               let inc1 = (if 4095 \<le> inc then 0 else inc)
               in (case NumberToBigInt x of
                     Inl e \<Rightarrow> (Inl e, inc1)
                   | Inr b \<Rightarrow>
                       (Inr (BigInt_toString 10 (push_bit 22 (b - EPOCH) OR push_bit 17 1 OR inc1)),
                        inc1 + 1))
         | _ \<Rightarrow>
             (Inl (TypeError (''Invalid timestamp: expected number but received '' @ typeof t1)), inc))"

definition deconstruct :: "string \<Rightarrow> error + DeconstructedSnowflake" where
  "deconstruct snowflake =
     (case StringToBigInt_or_throw snowflake of
        Inl e \<Rightarrow> Inl e
      | Inr bigIntSnowflake \<Rightarrow>
          Inr \<lparr> timestamp = num_add (BigIntToNumber (drop_bit 22 bigIntSnowflake)) (BigIntToNumber EPOCH),
                workerId = BigIntToNumber (drop_bit 17 bigIntSnowflake AND 31),
                processId = BigIntToNumber (drop_bit 12 bigIntSnowflake AND 31),
                increment = BigIntToNumber (bigIntSnowflake AND 4095),
                binary = padStart 64 (CHR ''0'') (BigInt_toString 2 bigIntSnowflake) \<rparr>)"

text \<open>
  The getter \<open>date\<close> builds \<open>new Date(this.timestamp)\<close>: the time value is the timestamp,
  or not-a-number when that is not finite or beyond 8.64e15 in magnitude.
\<close>

definition date :: "DeconstructedSnowflake \<Rightarrow> jsval" where
  "date d =
     JSDate (case timestamp d of
               Fin q \<Rightarrow> if \<bar>q\<bar> \<le> 8640000000000000 then Fin (of_int (sgn \<lfloor>q\<rfloor> * \<lfloor>\<bar>q\<bar>\<rfloor>)) else NaN
             | _ \<Rightarrow> NaN)"

definition getTimestamp :: "string \<Rightarrow> error + jsnum" where
  "getTimestamp snowflake =
     (case StringToBigInt_or_throw snowflake of
        Inl e \<Rightarrow> Inl e
      | Inr n \<Rightarrow> Inr (num_add (BigIntToNumber (drop_bit 22 n)) (BigIntToNumber EPOCH)))"

definition calculateDuration :: "string \<Rightarrow> string \<Rightarrow> error + jsnum" where
  "calculateDuration snowflake1 snowflake2 =
     (case getTimestamp snowflake1 of
        Inl e \<Rightarrow> Inl e
      | Inr timestamp1 \<Rightarrow>
          (case getTimestamp snowflake2 of
             Inl e \<Rightarrow> Inl e
           | Inr timestamp2 \<Rightarrow> Inr (Math_abs (num_sub timestamp1 timestamp2))))"

definition get_EPOCH :: jsnum where
  "get_EPOCH = BigIntToNumber EPOCH"

text \<open>
  The whole module as one call interface: every function takes the module variable
  \<open>increment\<close> and gives it back. Only \<open>generate\<close> assigns to it; the bodies of the other
  functions and of the accessor \<open>EPOCH\<close> do not mention it, so they give it back as it was.
\<close>

datatype call =
    Generate jsval
  | Deconstruct string
  | GetTimestamp string
  | CalculateDuration string string
  | GetEPOCH

datatype result = RString string | RSnowflake DeconstructedSnowflake | RNumber jsnum

fun call_module :: "call \<Rightarrow> int \<Rightarrow> int \<Rightarrow> (error + result) \<times> int" where
  "call_module (Generate arg) now inc =
     (case generate arg now inc of (r, inc') \<Rightarrow> (map_sum id RString r, inc'))"
| "call_module (Deconstruct s) now inc = (map_sum id RSnowflake (deconstruct s), inc)"
| "call_module (GetTimestamp s) now inc = (map_sum id RNumber (getTimestamp s), inc)"
| "call_module (CalculateDuration a b) now inc = (map_sum id RNumber (calculateDuration a b), inc)"
| "call_module GetEPOCH now inc = (Inr (RNumber get_EPOCH), inc)"

text \<open>
  Calling \<open>generate\<close> \<open>n\<close> times in a row with the same argument, the counter left by
  one call being the counter of the next. The results are in call order.
\<close>

fun generate_many :: "nat \<Rightarrow> jsval \<Rightarrow> int \<Rightarrow> int \<Rightarrow> (error + string) list \<times> int" where
  "generate_many 0 arg now inc = ([], inc)"
| "generate_many (Suc n) arg now inc =
     (case generate arg now inc of
        (r, inc1) \<Rightarrow> (case generate_many n arg now inc1 of (rs, inc2) \<Rightarrow> (r # rs, inc2)))"

text \<open>
  The string \<open>generate\<close> returns for the integer timestamp \<open>t\<close> when the counter it embeds
  is \<open>k\<close>.
\<close>

definition snowflake_of :: "int \<Rightarrow> int \<Rightarrow> string" where
  "snowflake_of t k = BigInt_toString 10 (push_bit 22 (t - EPOCH) OR push_bit 17 1 OR k)"

section \<open>Printing and parsing a bigint\<close>

lemma digit_char_decimal: "d < 10 \<Longrightarrow> digit_char d \<in> set ''0123456789'' \<and> digit_value (digit_char d) = Some d"
proof -
  assume "d < 10"
  then have "d = 0 \<or> d = 1 \<or> d = 2 \<or> d = 3 \<or> d = 4 \<or> d = 5 \<or> d = 6 \<or> d = 7 \<or> d = 8 \<or> d = 9"
    by arith
  then show ?thesis
    by (elim disjE) (simp_all add: digit_char_def digit_value_def)
qed

lemma decimal_char_props:
  "c \<in> set ''0123456789'' \<Longrightarrow>
     \<not> is_whitespace c \<and> c \<noteq> CHR ''+'' \<and> c \<noteq> CHR ''-'' \<and> c \<noteq> CHR ''x'' \<and> c \<noteq> CHR ''X''
     \<and> c \<noteq> CHR ''o'' \<and> c \<noteq> CHR ''O'' \<and> c \<noteq> CHR ''b'' \<and> c \<noteq> CHR ''B''"
  by (auto simp: is_whitespace_def)

lemma digits_of_nonempty: "digits_of r n \<noteq> []"
  by (subst digits_of.simps) simp

lemma digits_of_decimal_chars:
  "2 \<le> r \<Longrightarrow> r \<le> 10 \<Longrightarrow> set (digits_of r n) \<subseteq> set ''0123456789''"
proof (induction r n rule: digits_of.induct)
  case (1 r n)
  show ?case
  proof (cases "n < r")
    case True
    with 1(3) have "n < 10" by simp
    then show ?thesis using True digit_char_decimal [of n]
      by (subst digits_of.simps) simp
  next
    case False
    have "n mod r < 10" using 1(2,3) by (meson mod_less_divisor order.strict_trans2 pos2 order_less_le_trans)
    with False 1 show ?thesis using digit_char_decimal [of "n mod r"]
      by (subst digits_of.simps) simp
  qed
qed

lemma parse_acc_snoc:
  "parse_acc r acc (xs @ [c]) =
     (case parse_acc r acc xs of
        None \<Rightarrow> None
      | Some a \<Rightarrow> (case digit_value c of
                    None \<Rightarrow> None
                  | Some d \<Rightarrow> if d < r then Some (a * r + d) else None))"
  by (induction xs arbitrary: acc) (auto split: option.splits)

lemma parse_acc_digits_of:
  "2 \<le> r \<Longrightarrow> r \<le> 10 \<Longrightarrow> parse_acc r 0 (digits_of r n) = Some n"
proof (induction r n rule: digits_of.induct)
  case (1 r n)
  show ?case
  proof (cases "n < r")
    case True
    with 1(3) have "n < 10" by simp
    then show ?thesis using True digit_char_decimal [of n]
      by (subst digits_of.simps) simp
  next
    case False
    have m: "n mod r < r" using 1(2) by simp
    then have "n mod r < 10" using 1(3) by simp
    with False 1 m show ?thesis using digit_char_decimal [of "n mod r"]
      by (subst digits_of.simps) (simp add: parse_acc_snoc)
  qed
qed

lemma parse_digits_digits_of:
  "2 \<le> r \<Longrightarrow> r \<le> 10 \<Longrightarrow> parse_digits r (digits_of r n) = Some n"
  by (simp add: parse_digits_def digits_of_nonempty parse_acc_digits_of)

lemma trim_no_whitespace: "\<forall>c\<in>set s. \<not> is_whitespace c \<Longrightarrow> trim s = s"
proof -
  assume a: "\<forall>c\<in>set s. \<not> is_whitespace c"
  have "dropWhile is_whitespace xs = xs" if "\<forall>c\<in>set xs. \<not> is_whitespace c" for xs
    using that by (cases xs) auto
  note d = this
  have "dropWhile is_whitespace s = s" using a by (rule d)
  moreover have "dropWhile is_whitespace (rev s) = rev s" using a by (intro d) simp
  ultimately show ?thesis by (simp add: trim_def)
qed

lemma parse_signed_decimal:
  "parse_signed (digits_of 10 n) = Some (int n)"
proof -
  obtain c cs where e: "digits_of 10 n = c # cs"
    using digits_of_nonempty [of 10 n] by (cases "digits_of 10 n") auto
  have "c \<in> set ''0123456789''"
    using digits_of_decimal_chars [of 10 n] e by auto
  then have "c \<noteq> CHR ''+'' \<and> c \<noteq> CHR ''-''" using decimal_char_props by blast
  then show ?thesis
    using parse_digits_digits_of [of 10 n] e by (simp add: parse_signed_def)
qed

lemma StringToBigInt_digits_of: "StringToBigInt (digits_of 10 n) = Some (int n)"
proof -
  let ?s = "digits_of 10 n"
  have cs: "set ?s \<subseteq> set ''0123456789''" by (rule digits_of_decimal_chars) simp_all
  then have t: "trim ?s = ?s"
    using decimal_char_props by (intro trim_no_whitespace) blast
  show ?thesis
  proof (cases ?s)
    case Nil
    then show ?thesis using digits_of_nonempty by blast
  next
    case (Cons c1 r1)
    show ?thesis
    proof (cases r1)
      case Nil
      with Cons t parse_signed_decimal [of n] show ?thesis
        by (simp add: StringToBigInt_def)
    next
      case (Cons c2 r2)
      with \<open>?s = c1 # r1\<close> cs have "c2 \<in> set ''0123456789''" by auto
      then have "c2 \<noteq> CHR ''x'' \<and> c2 \<noteq> CHR ''X'' \<and> c2 \<noteq> CHR ''o'' \<and> c2 \<noteq> CHR ''O'' \<and> c2 \<noteq> CHR ''b'' \<and> c2 \<noteq> CHR ''B''"
        using decimal_char_props by blast
      with Cons \<open>?s = c1 # r1\<close> t parse_signed_decimal [of n] show ?thesis
        by (simp add: StringToBigInt_def)
    qed
  qed
qed

lemma StringToBigInt_neg_digits_of:
  "StringToBigInt (CHR ''-'' # digits_of 10 n) = Some (- int n)"
proof -
  let ?s = "CHR ''-'' # digits_of 10 n"
  have cs: "set (digits_of 10 n) \<subseteq> set ''0123456789''" by (rule digits_of_decimal_chars) simp_all
  have "\<forall>c\<in>set ?s. \<not> is_whitespace c"
    using cs decimal_char_props by (auto simp: is_whitespace_def)
  then have t: "trim ?s = ?s" by (rule trim_no_whitespace)
  have p: "parse_signed ?s = Some (- int n)"
    using parse_digits_digits_of [of 10 n] by (simp add: parse_signed_def)
  obtain c cs' where e: "digits_of 10 n = c # cs'"
    using digits_of_nonempty [of 10 n] by (cases "digits_of 10 n") auto
  show ?thesis using t p e by (simp add: StringToBigInt_def)
qed

lemma StringToBigInt_toString: "StringToBigInt (BigInt_toString 10 n) = Some n"
  using StringToBigInt_digits_of [of "nat n"] StringToBigInt_neg_digits_of [of "nat (- n)"]
  by (simp add: BigInt_toString_def)

section \<open>Integers that binary64 holds exactly\<close>

lemma pow2_nonpos: "0 \<le> k \<Longrightarrow> pow2 (- k) = 1 / 2 ^ nat k"
  by (cases "k = 0") (simp_all add: pow2_def)

lemma round_half_even_of_int: "round_half_even (of_int m) = m"
  by (simp add: round_half_even_def)

lemma round_double_exact:
  assumes "\<bar>n\<bar> < 2 ^ 53"
  shows "round_double (of_int n) = Fin (of_int n)"
proof (cases "n = 0")
  case True
  then show ?thesis by (simp add: round_double_def)
next
  case False
  define a where "a = \<bar>n\<bar>"
  have a: "0 < a" "a < 2 ^ 53" using False assms by (simp_all add: a_def)
  define k where "k = 53 - bitlen a"
  have "bitlen a \<le> 53" using a by (simp add: bitlen_le_iff_power)
  then have k: "0 \<le> k" by (simp add: k_def)
  have "1 \<le> bitlen a" using a(1) by (simp add: bitlen_ge_iff_power)
  then have m: "max (bitlen a - 1) (- 1022) = bitlen a - 1" by simp
  have fl: "floor_log2 (of_int a) = bitlen a - 1"
    using a(1) by (simp add: floor_log2_def)
  have ulp: "pow2 (bitlen a - 1 - 52) = 1 / 2 ^ nat k"
    using pow2_nonpos [OF k] by (simp add: k_def)
  have div: "(of_int a :: rat) / (1 / 2 ^ nat k) = of_int (a * 2 ^ nat k)"
    by simp
  have r: "(of_int (a * 2 ^ nat k) :: rat) * (1 / 2 ^ nat k) = of_int a"
    by simp
  have small: "\<not> (2 ^ 1024 \<le> (of_int a :: rat))"
  proof -
    have "(of_int a :: rat) < 2 ^ 53" using a(2) by (metis of_int_less_numeral_power_cancel_iff)
    also have "\<dots> < 2 ^ 1024" by (simp add: power_strict_increasing_iff)
    finally show ?thesis by simp
  qed
  have abs: "\<bar>of_int n :: rat\<bar> = of_int a" by (simp add: a_def)
  have sg: "sgn (of_int n :: rat) * of_int a = of_int n"
    by (simp add: a_def sgn_if)
  have R: "of_int (round_half_even (of_int a / pow2 (max (floor_log2 (of_int a)) (- 1022) - 52)))
             * pow2 (max (floor_log2 (of_int a)) (- 1022) - 52) = (of_int a :: rat)"
    unfolding fl m ulp div round_half_even_of_int r ..
  have "round_double (of_int n) = Fin (sgn (of_int n) * of_int a)"
    unfolding round_double_def Let_def abs R using False small by simp
  then show ?thesis unfolding sg .
qed

lemma BigIntToNumber_exact: "\<bar>n\<bar> < 2 ^ 53 \<Longrightarrow> BigIntToNumber n = Fin (of_int n)"
  by (simp add: BigIntToNumber_def round_double_exact)

lemma num_add_exact:
  "\<bar>a + b\<bar> < 2 ^ 53 \<Longrightarrow> num_add (Fin (of_int a)) (Fin (of_int b)) = Fin (of_int (a + b))"
  using round_double_exact [of "a + b"] by simp

section \<open>The fields of a generated snowflake\<close>

lemma snowflake_drop_22:
  assumes "0 \<le> k" "k < 4096"
  shows "drop_bit 22 (push_bit 22 x OR push_bit 17 1 OR k) = (x::int)"
proof -
  have d: "drop_bit 22 k = 0" using assms by (simp add: drop_bit_eq_div)
  have p: "drop_bit 22 (push_bit 22 x) = x" by (simp add: drop_bit_push_bit)
  have o: "drop_bit 22 (push_bit 17 (1::int)) = 0" by (simp add: drop_bit_eq_div)
  have "drop_bit 22 (push_bit 22 x OR push_bit 17 1 OR k)
          = drop_bit 22 (push_bit 22 x) OR drop_bit 22 (push_bit 17 1) OR drop_bit 22 k"
    by (simp only: drop_bit_or)
  also have "\<dots> = x" by (simp only: d p o) simp
  finally show ?thesis .
qed

lemma snowflake_and_4095:
  assumes "0 \<le> k" "k < 4096"
  shows "(push_bit 22 x OR push_bit 17 1 OR k) AND 4095 = (k::int)"
proof -
  have m: "(4095::int) = mask 12" by (simp add: mask_eq_exp_minus_1)
  have "take_bit 12 k = k" using assms by (simp add: take_bit_int_eq_self)
  then show ?thesis
    unfolding m by (simp add: take_bit_push_bit flip: take_bit_eq_mask)
qed

lemma generate_number_ok:
  "generate (JSNumber (Fin (of_int t))) now inc =
     (Inr (BigInt_toString 10 (push_bit 22 (t - EPOCH) OR push_bit 17 1 OR (if 4095 \<le> inc then 0 else inc))),
      (if 4095 \<le> inc then 0 else inc) + 1)"
  by (simp add: generate_def Let_def)

lemma getTimestamp_toString:
  "getTimestamp (BigInt_toString 10 n) =
     Inr (num_add (BigIntToNumber (drop_bit 22 n)) (BigIntToNumber EPOCH))"
  by (simp add: getTimestamp_def StringToBigInt_or_throw_def StringToBigInt_toString)

lemma deconstruct_toString:
  "deconstruct (BigInt_toString 10 n) =
     Inr \<lparr> timestamp = num_add (BigIntToNumber (drop_bit 22 n)) (BigIntToNumber EPOCH),
           workerId = BigIntToNumber (drop_bit 17 n AND 31),
           processId = BigIntToNumber (drop_bit 12 n AND 31),
           increment = BigIntToNumber (n AND 4095),
           binary = padStart 64 (CHR ''0'') (BigInt_toString 2 n) \<rparr>"
  by (simp add: deconstruct_def StringToBigInt_or_throw_def StringToBigInt_toString)

lemma timestamp_exact:
  assumes "\<bar>x\<bar> < 2 ^ 53" "\<bar>x + EPOCH\<bar> < 2 ^ 53"
  shows "num_add (BigIntToNumber x) (BigIntToNumber EPOCH) = Fin (of_int (x + EPOCH))"
proof -
  have "\<bar>EPOCH\<bar> < 2 ^ 53" by (simp add: EPOCH_def)
  then show ?thesis
    using assms by (simp add: BigIntToNumber_exact num_add_exact del: num_add.simps)
qed

lemma increment_toString:
  "map_sum id increment (deconstruct (BigInt_toString 10 n)) = Inr (BigIntToNumber (n AND 4095))"
  by (simp add: deconstruct_toString)

lemma embedded_increment:
  assumes "0 \<le> k" "k < 4096"
  shows "map_sum id increment (deconstruct (snowflake_of t k)) = Inr (Fin (of_int k))"
proof -
  have "\<bar>k\<bar> < 2 ^ 53" using assms by simp
  then have "BigIntToNumber k = Fin (of_int k)" by (rule BigIntToNumber_exact)
  then show ?thesis
    unfolding snowflake_of_def increment_toString snowflake_and_4095 [OF assms] by simp
qed

lemma snowflake_of_inj:
  assumes "0 \<le> j" "j < 4096" "0 \<le> k" "k < 4096" "snowflake_of t j = snowflake_of t k"
  shows "j = k"
proof -
  have "map_sum id increment (deconstruct (snowflake_of t j))
      = map_sum id increment (deconstruct (snowflake_of t k))"
    using assms(5) by simp
  then show ?thesis
    using embedded_increment [OF assms(1,2), of t] embedded_increment [OF assms(3,4), of t]
    by simp
qed

section \<open>Running generate several times\<close>

lemma generate_many_append:
  "generate_many (m + n) arg now inc =
     (case generate_many m arg now inc of
        (rs1, inc1) \<Rightarrow> (case generate_many n arg now inc1 of (rs2, inc2) \<Rightarrow> (rs1 @ rs2, inc2)))"
  by (induction m arbitrary: inc) (auto split: prod.splits)

lemma generate_many_below_max:
  "0 \<le> inc \<Longrightarrow> inc + int n \<le> 4095 \<Longrightarrow>
     generate_many n (JSNumber (Fin (of_int t))) now inc
       = (map (\<lambda>i. Inr (snowflake_of t (inc + int i))) [0..<n], inc + int n)"
proof (induction n arbitrary: inc)
  case 0
  then show ?case by simp
next
  case (Suc n)
  have g: "generate (JSNumber (Fin (of_int t))) now inc = (Inr (snowflake_of t inc), inc + 1)"
    using Suc.prems by (simp add: generate_number_ok snowflake_of_def)
  have "generate_many n (JSNumber (Fin (of_int t))) now (inc + 1)
       = (map (\<lambda>i. Inr (snowflake_of t (inc + 1 + int i))) [0..<n], inc + 1 + int n)"
    using Suc.prems by (intro Suc.IH) simp_all
  then show ?case
    using g by (simp add: map_upt_Suc ac_simps del: upt_Suc)
qed

lemma generate_many_4096:
  "generate_many 4096 (JSNumber (Fin (of_int t))) now 0
     = (map (\<lambda>i. Inr (snowflake_of t (int i))) [0..<4095] @ [Inr (snowflake_of t 0)], 1)"
proof -
  have a: "generate_many 4095 (JSNumber (Fin (of_int t))) now 0
       = (map (\<lambda>i. Inr (snowflake_of t (int i))) [0..<4095], 4095)"
    using generate_many_below_max [of 0 4095 t now] by simp
  have b: "generate_many 1 (JSNumber (Fin (of_int t))) now 4095 = ([Inr (snowflake_of t 0)], 1)"
    by (simp add: generate_number_ok snowflake_of_def)
  show ?thesis
    using generate_many_append [of 4095 1 "JSNumber (Fin (of_int t))" now 0] a b by simp
qed

section \<open>Strings of white space, strings of binary digits\<close>

lemma trim_all_whitespace:
  assumes "\<forall>c\<in>set s. is_whitespace c"
  shows "trim s = []"
proof -
  have d: "dropWhile is_whitespace s = []" using assms by (simp add: dropWhile_eq_Nil_conv)
  show ?thesis unfolding trim_def d by simp
qed

lemma digits_of_length: "0 < k \<Longrightarrow> n < r ^ k \<Longrightarrow> length (digits_of r n) \<le> k"
proof (induction r n arbitrary: k rule: digits_of.induct)
  case (1 r n)
  show ?case
  proof (cases "r < 2 \<or> n < r")
    case True
    then show ?thesis using 1(2) by (subst digits_of.simps) simp
  next
    case False
    then have r: "2 \<le> r" "r \<le> n" by simp_all
    have "k \<noteq> 1" using 1(3) r by auto
    then obtain j where k: "k = Suc j" "0 < j" using 1(2) by (cases k) auto
    have "n < r ^ j * r" using 1(3) k by (simp add: mult.commute)
    then have "n div r < r ^ j" using r by (simp add: less_mult_imp_div_less)
    then have "length (digits_of r (n div r)) \<le> j" using False k by (intro 1(1)) simp_all
    then show ?thesis using False k by (subst digits_of.simps) simp
  qed
qed

lemma digits_of_binary_chars: "set (digits_of 2 n) \<subseteq> {CHR ''0'', CHR ''1''}"
proof -
  have c: "digit_char d \<in> {CHR ''0'', CHR ''1''}" if "d < 2" for d
  proof -
    from that have "d = 0 \<or> d = 1" by arith
    then show ?thesis by (auto simp: digit_char_def)
  qed
  have "2 \<le> r \<Longrightarrow> r = 2 \<Longrightarrow> set (digits_of r n) \<subseteq> {CHR ''0'', CHR ''1''}" for r
  proof (induction r n rule: digits_of.induct)
    case (1 r n)
    show ?case
    proof (cases "n < r")
      case True
      then show ?thesis using 1(3) c [of n] by (subst digits_of.simps) simp
    next
      case False
      have "n mod r < 2" using 1(3) by simp
      with False 1 show ?thesis using c [of "n mod r"] by (subst digits_of.simps) simp
    qed
  qed
  then show ?thesis by simp
qed

lemma parse_acc_zeros: "parse_acc r 0 (replicate k (CHR ''0'') @ s) = (if 0 < r \<or> k = 0 then parse_acc r 0 s else None)"
  by (induction k) (simp_all add: digit_value_def)

lemma StringToBigInt_binary:
  assumes "0 \<le> n"
  shows "StringToBigInt (''0b'' @ padStart 64 (CHR ''0'') (BigInt_toString 2 n)) = Some n"
proof -
  let ?d = "digits_of 2 (nat n)"
  let ?p = "replicate (64 - length ?d) (CHR ''0'') @ ?d"
  have b: "padStart 64 (CHR ''0'') (BigInt_toString 2 n) = ?p"
    using assms by (simp add: padStart_def BigInt_toString_def)
  have "set ?p \<subseteq> {CHR ''0'', CHR ''1''}"
    using digits_of_binary_chars [of "nat n"] by auto
  then have "\<forall>c\<in>set (''0b'' @ ?p). \<not> is_whitespace c"
    by (auto simp: is_whitespace_def)
  then have t: "trim (''0b'' @ ?p) = ''0b'' @ ?p" by (rule trim_no_whitespace)
  have "parse_digits 2 ?p = Some (nat n)"
    using parse_acc_digits_of [of 2 "nat n"] digits_of_nonempty [of 2 "nat n"]
    by (simp add: parse_digits_def parse_acc_zeros)
  then show ?thesis
    unfolding b using t assms by (simp add: StringToBigInt_def)
qed

section \<open>Timestamps of 64-bit snowflakes\<close>

lemma getTimestamp_snowflake:
  assumes "StringToBigInt s = Some n" "0 \<le> n" "n < 2 ^ 64"
  shows "getTimestamp s = Inr (Fin (of_int (drop_bit 22 n + EPOCH)))"
    and "0 \<le> drop_bit 22 n" and "drop_bit 22 n < 2 ^ 42"
proof -
  show 0: "0 \<le> drop_bit 22 n" using assms(2) by simp
  have "n div 2 ^ 22 < 2 ^ 42" using assms(3) by simp
  then show 1: "drop_bit 22 n < 2 ^ 42" by (simp add: drop_bit_eq_div)
  have "num_add (BigIntToNumber (drop_bit 22 n)) (BigIntToNumber EPOCH)
          = Fin (of_int (drop_bit 22 n + EPOCH))"
    using 0 1 by (intro timestamp_exact) (simp_all add: EPOCH_def)
  then show "getTimestamp s = Inr (Fin (of_int (drop_bit 22 n + EPOCH)))"
    using assms(1) by (simp add: getTimestamp_def StringToBigInt_or_throw_def)
qed

lemma num_sub_exact:
  assumes "\<bar>x - y\<bar> < 2 ^ 53"
  shows "num_sub (Fin (of_int x)) (Fin (of_int y)) = Fin (of_int (x - y))"
  using round_double_exact [OF assms] by (simp add: num_sub_def)

section \<open>Which errors generate throws\<close>

lemma NumberToBigInt_error: "NumberToBigInt x = Inl e \<Longrightarrow> e = RangeError"
  by (cases x) (auto split: if_splits)

lemma generate_TypeError_iff:
  "(\<exists>m. fst (generate arg now inc) = Inl (TypeError m)) \<longleftrightarrow>
     (case arg of
        JSUndefined \<Rightarrow> False
      | JSNumber x \<Rightarrow> isNaN x
      | JSDate tv \<Rightarrow> isNaN tv
      | _ \<Rightarrow> True)"
  by (auto simp: generate_def Let_def split: jsval.splits sum.splits dest!: NumberToBigInt_error)

lemma generate_TypeError_counter:
  "fst (generate arg now inc) = Inl (TypeError m) \<Longrightarrow> snd (generate arg now inc) = inc"
  by (auto simp: generate_def Let_def split: jsval.splits sum.splits if_splits
      dest!: NumberToBigInt_error)

lemma generate_counter_range:
  "0 \<le> inc \<Longrightarrow> inc \<le> 4095 \<Longrightarrow>
     0 \<le> snd (generate arg now inc) \<and> snd (generate arg now inc) \<le> 4095"
  by (auto simp: generate_def Let_def split: jsval.splits sum.splits)

section \<open>Concrete values\<close>

lemma toString_scenario: "BigInt_toString 10 4194435072 = ''4194435072''"
  by (simp add: BigInt_toString_def digits_of.simps digit_char_def)

lemma toString_spec_value: "BigInt_toString 10 4319917056 = ''4319917056''"
  by (simp add: BigInt_toString_def digits_of.simps digit_char_def)

lemma toString_2_scenario:
  "BigInt_toString 2 4194435072 = ''11111010000000100000000000000000''"
  by (simp add: BigInt_toString_def digits_of.simps digit_char_def)

lemma binary_scenario:
  "padStart 64 (CHR ''0'') (BigInt_toString 2 4194435072)
     = ''0000000000000000000000000000000011111010000000100000000000000000''"
  unfolding toString_2_scenario by (simp add: padStart_def eval_nat_numeral)

lemma StringToBigInt_scenario: "StringToBigInt ''4194435072'' = Some 4194435072"
  using StringToBigInt_toString [of 4194435072] by (simp only: toString_scenario)

lemma StringToBigInt_literal_0: "StringToBigInt ''0'' = Some 0"
proof -
  have "BigInt_toString 10 0 = ''0''"
    by (simp add: BigInt_toString_def digits_of.simps digit_char_def)
  then show ?thesis using StringToBigInt_toString [of 0] by simp
qed

lemma toString_2_pow_64: "BigInt_toString 10 18446744073709551616 = ''18446744073709551616''"
  by (simp add: BigInt_toString_def digits_of.simps digit_char_def)

lemma toString_minus_1: "BigInt_toString 10 (- 1) = ''-1''"
  by (simp add: BigInt_toString_def digits_of.simps digit_char_def)

lemma binary_2_pow_64:
  "BigInt_toString 2 18446744073709551616
     = ''10000000000000000000000000000000000000000000000000000000000000000''"
  by (simp add: BigInt_toString_def digits_of.simps digit_char_def)

lemma binary_minus_1: "BigInt_toString 2 (- 1) = ''-1''"
  by (simp add: BigInt_toString_def digits_of.simps digit_char_def)

text \<open>
  Two roundings beyond the safe integers: \<open>36893489567489515520\<close> is
  \<open>8192 * (2 ^ 52 + 173348439)\<close>, a binary64 value; less the epoch it lies halfway
  between two binary64 values, and so does the rounded difference plus the epoch.
\<close>

lemma round_double_far_1: "round_double 36893488147419115520 = Fin 36893488147419119616"
  by code_simp

lemma round_double_far_2: "round_double (36893488147419119616 + 1420070400000) = Fin 36893489567489523712"
  by code_simp

lemma round_double_far_3: "round_double 36893489567489515520 = Fin 36893489567489515520"
  by code_simp

lemma toString_far:
  "BigInt_toString 10 (push_bit 22 (36893489567489515520 - EPOCH) OR push_bit 17 1 OR 0)
     = ''154742504910672585902129152''"
  by (simp add: BigInt_toString_def EPOCH_def digits_of.simps digit_char_def)

section \<open>Properties of the module\<close>

subsection \<open>The increment wraps around\<close>

text \<open>
  C1, as amended: calling \<open>generate\<close> 4096 times in a row with the same integer
  timestamp, from the counter of the module as loaded (0), returns 4096 strings whose
  embedded increments are 0, 1, 2, ..., 4094, 0 in that order, and no two of the first
  4095 calls return the same string.
\<close>

theorem increment_wraparound:
  "(let rs = fst (generate_many 4096 (JSNumber (Fin (of_int t))) now initial_increment)
    in map (\<lambda>r. case r of Inl e \<Rightarrow> Inl e | Inr s \<Rightarrow> map_sum id increment (deconstruct s)) rs
         = map (\<lambda>i. Inr (Fin (of_nat i))) ([0..<4095] @ [0])
       \<and> distinct (take 4095 rs))"
proof -
  let ?f = "\<lambda>i. (Inr (snowflake_of t (int i)) :: error + string)"
  have inj: "inj_on ?f (set [0..<4095])"
  proof (rule inj_onI)
    fix x y
    assume "x \<in> set [0..<4095]" "y \<in> set [0..<4095]" "?f x = ?f y"
    then have "int x = int y"
      by (intro snowflake_of_inj [of _ _ t]) simp_all
    then show "x = y" by simp
  qed
  have d: "distinct (map ?f [0..<4095])"
    using inj by (simp add: distinct_map)
  have e: "(case ?f i of Inl e \<Rightarrow> Inl e | Inr s \<Rightarrow> map_sum id increment (deconstruct s))
             = Inr (Fin (of_nat i))" if "i < 4096" for i
    using embedded_increment [of "int i" t] that by simp
  have m: "map (\<lambda>r. case r of Inl e \<Rightarrow> Inl e | Inr s \<Rightarrow> map_sum id increment (deconstruct s))
             (map ?f [0..<4095]) = map (\<lambda>i. Inr (Fin (of_nat i))) [0..<4095]"
    using e by (simp del: upt_Suc)
  have l: "(case ?f 0 of Inl e \<Rightarrow> Inl e | Inr s \<Rightarrow> map_sum id increment (deconstruct s))
             = Inr (Fin (of_nat 0))"
    by (rule e) simp
  show ?thesis
    unfolding Let_def initial_increment_def generate_many_4096 fst_conv
    using d m l by (simp del: upt_Suc)
qed

text \<open>
  The value 4095 is never embedded: the counter is reset when it has reached 4095, before
  it is used. So the 4096th call returns the string of the first call, with increment 0.
\<close>

theorem increment_wraparound_counterexample:
  "fst (generate_many 4096 (JSNumber (Fin 1420070401000)) 0 initial_increment) ! 0
     = Inr ''4194435072''
   \<and> fst (generate_many 4096 (JSNumber (Fin 1420070401000)) 0 initial_increment) ! 4095
       = Inr ''4194435072''
   \<and> map_sum id increment (deconstruct ''4194435072'') = Inr (Fin 0)"
proof -
  have s: "snowflake_of 1420070401000 0 = ''4194435072''"
    by (simp add: snowflake_of_def EPOCH_def BigInt_toString_def digits_of.simps digit_char_def)
  have l: "length (map (\<lambda>i. (Inr (snowflake_of 1420070401000 (int i)) :: error + string)) [0..<4095]) = 4095"
    by simp
  have a: "(map (\<lambda>i. (Inr (snowflake_of 1420070401000 (int i)) :: error + string)) [0..<4095]
              @ [Inr (snowflake_of 1420070401000 0)]) ! 4095 = Inr ''4194435072''"
    using nth_append_length [of "map (\<lambda>i. (Inr (snowflake_of 1420070401000 (int i)) :: error + string)) [0..<4095]"]
    unfolding l s by simp
  have b: "(map (\<lambda>i. (Inr (snowflake_of 1420070401000 (int i)) :: error + string)) [0..<4095]
              @ [Inr (snowflake_of 1420070401000 0)]) ! 0 = Inr ''4194435072''"
    using s by (simp add: nth_append del: upt_Suc)
  have i: "map_sum id increment (deconstruct ''4194435072'') = Inr (Fin 0)"
    using embedded_increment [of 0 1420070401000] unfolding s by simp
  show ?thesis
    using generate_many_4096 [of 1420070401000 0] a b i by (simp add: initial_increment_def)
qed

subsection \<open>Round trip of the timestamp\<close>

text \<open>
  C2, as amended: for every integer millisecond timestamp \<open>t\<close> from \<open>EPOCH\<close> up to
  \<open>Number.MAX_SAFE_INTEGER\<close> (\<open>2 ^ 53 - 1\<close>), whatever the counter holds (it is never
  negative), \<open>generate(t)\<close> returns a string \<open>s\<close> and \<open>deconstruct(s).timestamp\<close> is
  \<open>t\<close>.
\<close>

theorem generate_deconstruct_timestamp:
  assumes "EPOCH \<le> t" "t \<le> 9007199254740991" "0 \<le> inc"
  shows "\<exists>s. fst (generate (JSNumber (Fin (of_int t))) now inc) = Inr s
           \<and> map_sum id timestamp (deconstruct s) = Inr (Fin (of_int t))"
proof -
  define k where "k = (if 4095 \<le> inc then 0 else inc)"
  have k: "0 \<le> k" "k < 4096" using assms(3) by (simp_all add: k_def)
  define s where "s = BigInt_toString 10 (push_bit 22 (t - EPOCH) OR push_bit 17 1 OR k)"
  have g: "fst (generate (JSNumber (Fin (of_int t))) now inc) = Inr s"
    by (simp add: generate_number_ok s_def k_def)
  have "\<bar>t - EPOCH\<bar> < 2 ^ 53" "\<bar>t - EPOCH + EPOCH\<bar> < 2 ^ 53"
    using assms(1,2) by (simp_all add: EPOCH_def)
  then have "num_add (BigIntToNumber (t - EPOCH)) (BigIntToNumber EPOCH) = Fin (of_int t)"
    using timestamp_exact [of "t - EPOCH"] by simp
  then have "map_sum id timestamp (deconstruct s) = Inr (Fin (of_int t))"
    by (simp only: s_def deconstruct_toString snowflake_drop_22 [OF k]) simp
  with g show ?thesis by blast
qed

theorem generate_deconstruct_timestamp_witness:
  "EPOCH \<le> 1420070401000 \<and> (1420070401000::int) \<le> 9007199254740991 \<and> (0::int) \<le> 0
   \<and> (\<exists>s. fst (generate (JSNumber (Fin (of_int 1420070401000))) 0 0) = Inr s
          \<and> map_sum id timestamp (deconstruct s) = Inr (Fin (of_int 1420070401000)))"
  using generate_deconstruct_timestamp [of 1420070401000 0 0] by (simp add: EPOCH_def)

text \<open>
  Beyond the safe integers the round trip fails: at the binary64 value
  \<open>36893489567489515520\<close> the timestamp decoded from the snowflake is 8192 more,
  because \<open>Number\<close> of the relative time and the addition of the epoch both round.
\<close>

theorem generate_deconstruct_timestamp_counterexample:
  "EPOCH \<le> 36893489567489515520
   \<and> round_double 36893489567489515520 = Fin 36893489567489515520
   \<and> fst (generate (JSNumber (Fin 36893489567489515520)) 0 0) = Inr ''154742504910672585902129152''
   \<and> map_sum id timestamp (deconstruct ''154742504910672585902129152'')
       = Inr (Fin 36893489567489523712)
   \<and> Fin 36893489567489523712 \<noteq> Fin 36893489567489515520"
proof -
  have g: "fst (generate (JSNumber (Fin 36893489567489515520)) 0 0) = Inr ''154742504910672585902129152''"
    using generate_number_ok [of 36893489567489515520 0 0] toString_far by simp
  define N where "N = push_bit 22 (36893489567489515520 - EPOCH) OR push_bit 17 1 OR 0"
  have s: "''154742504910672585902129152'' = BigInt_toString 10 N"
    unfolding N_def by (simp only: toString_far)
  have dr: "drop_bit 22 N = 36893489567489515520 - EPOCH"
    unfolding N_def by (rule snowflake_drop_22) simp_all
  have b1: "BigIntToNumber (36893489567489515520 - EPOCH) = Fin 36893488147419119616"
    using round_double_far_1 by (simp add: BigIntToNumber_def EPOCH_def)
  have b2: "BigIntToNumber EPOCH = Fin 1420070400000"
    using BigIntToNumber_exact [of EPOCH] by (simp add: EPOCH_def)
  have b3: "num_add (Fin 36893488147419119616) (Fin 1420070400000) = Fin 36893489567489523712"
    using round_double_far_2 by simp
  have "map_sum id timestamp (deconstruct (BigInt_toString 10 N))
          = Inr (num_add (BigIntToNumber (drop_bit 22 N)) (BigIntToNumber EPOCH))"
    by (simp add: deconstruct_toString)
  then have d: "map_sum id timestamp (deconstruct ''154742504910672585902129152'')
          = Inr (Fin 36893489567489523712)"
    by (simp only: s dr b1 b2 b3)
  show ?thesis using g d round_double_far_3 by (simp add: EPOCH_def)
qed

subsection \<open>The concrete scenario\<close>

text \<open>
  C3, as amended: generating at absolute time 1420070401000 (one second after the epoch)
  with the counter at 0 yields the string \<open>4194435072\<close>, which is
  \<open>(1000 << 22) | (1 << 17) | 0\<close>, and leaves the counter at 1; decoding that string
  yields timestamp 1420070401000, workerId 1, processId 0 and increment 0.
\<close>

theorem concrete_scenario:
  "generate (JSNumber (Fin 1420070401000)) now 0 = (Inr ''4194435072'', 1)
   \<and> deconstruct ''4194435072''
       = Inr \<lparr> timestamp = Fin 1420070401000, workerId = Fin 1, processId = Fin 0,
               increment = Fin 0,
               binary = ''0000000000000000000000000000000011111010000000100000000000000000'' \<rparr>"
proof -
  have g: "generate (JSNumber (Fin 1420070401000)) now 0 = (Inr ''4194435072'', 1)"
    using generate_number_ok [of 1420070401000 now 0] toString_scenario
    by (simp add: EPOCH_def)
  have "deconstruct (BigInt_toString 10 4194435072)
       = Inr \<lparr> timestamp = Fin 1420070401000, workerId = Fin 1, processId = Fin 0,
               increment = Fin 0,
               binary = ''0000000000000000000000000000000011111010000000100000000000000000'' \<rparr>"
    unfolding deconstruct_toString binary_scenario
    using timestamp_exact [of 1000]
    by (simp add: drop_bit_eq_div BigIntToNumber_exact EPOCH_def del: num_add.simps)
  then show ?thesis using g by (simp only: toString_scenario)
qed

text \<open>
  The integer 4319917056 that the specification gives is not what \<open>generate\<close> returns,
  and it decodes to other fields: timestamp 1420070401029, workerId 30, processId 11,
  increment 1024.
\<close>

theorem concrete_scenario_counterexample:
  "fst (generate (JSNumber (Fin 1420070401000)) 0 0) \<noteq> Inr ''4319917056''
   \<and> map_sum id timestamp (deconstruct ''4319917056'') = Inr (Fin 1420070401029)
   \<and> map_sum id workerId (deconstruct ''4319917056'') = Inr (Fin 30)
   \<and> map_sum id processId (deconstruct ''4319917056'') = Inr (Fin 11)
   \<and> map_sum id increment (deconstruct ''4319917056'') = Inr (Fin 1024)"
proof -
  have g: "generate (JSNumber (Fin 1420070401000)) 0 0 = (Inr ''4194435072'', 1)"
    using generate_number_ok [of 1420070401000 0 0] toString_scenario
    by (simp add: EPOCH_def)
  have "map_sum id (\<lambda>d. (timestamp d, workerId d, processId d, increment d))
          (deconstruct (BigInt_toString 10 4319917056))
       = Inr (Fin 1420070401029, Fin 30, Fin 11, Fin 1024)"
    unfolding deconstruct_toString
    using timestamp_exact [of 1029]
    by (simp add: drop_bit_eq_div BigIntToNumber_exact EPOCH_def del: num_add.simps)
  then have "map_sum id (\<lambda>d. (timestamp d, workerId d, processId d, increment d))
          (deconstruct ''4319917056'')
       = Inr (Fin 1420070401029, Fin 30, Fin 11, Fin 1024)"
    by (simp only: toString_spec_value)
  then show ?thesis using g by (cases "deconstruct ''4319917056''") simp_all
qed

subsection \<open>Invalid timestamps\<close>

text \<open>
  C4: the specification has \<open>generate\<close> throw its invalid-timestamp \<open>TypeError\<close> on
  every number that is not finite. The code does so on not-a-number only: an infinity
  passes the check \<open>isNaN\<close> and \<open>BigInt(timestamp)\<close> throws a \<open>RangeError\<close> instead, after
  the reset of the counter.
\<close>

theorem generate_infinity:
  "generate (JSNumber PInf) now inc = (Inl RangeError, if 4095 \<le> inc then 0 else inc)
   \<and> generate (JSNumber NInf) now inc = (Inl RangeError, if 4095 \<le> inc then 0 else inc)
   \<and> generate (JSNumber NaN) now inc
       = (Inl (TypeError ''Invalid timestamp: expected number but received number''), inc)"
  by (simp add: generate_def)

text \<open>
  C5: the specification has a call of \<open>generate\<close> that throws leave the counter as it
  was. In the code, after 4095 calls the counter is 4095; a call that throws the
  \<open>RangeError\<close> of \<open>BigInt(timestamp)\<close> then leaves it at 0, on an infinity and on a number
  that is not an integer alike.
\<close>

theorem generate_throw_after_reset:
  "snd (generate_many 4095 (JSNumber (Fin 1420070401000)) 0 initial_increment) = 4095
   \<and> generate (JSNumber PInf) 0 4095 = (Inl RangeError, 0)
   \<and> generate (JSNumber (Fin (3 / 2))) 0 4095 = (Inl RangeError, 0)"
proof -
  have "snd (generate_many 4095 (JSNumber (Fin 1420070401000)) 0 0) = 4095"
    using generate_many_below_max [of 0 4095 1420070401000 0] by simp
  moreover have "\<lfloor>3 / 2 :: rat\<rfloor> = 1" by linarith
  ultimately show ?thesis by (simp add: generate_def initial_increment_def)
qed

subsection \<open>The fast path of the timestamp\<close>

text \<open>
  C6: \<open>getTimestamp(s)\<close> is \<open>deconstruct(s).timestamp\<close> on every string: it returns the
  timestamp field where \<open>deconstruct\<close> returns, and throws the same error where
  \<open>deconstruct\<close> throws, so the two fail on the same strings.
\<close>

theorem getTimestamp_deconstruct:
  "getTimestamp s = map_sum id timestamp (deconstruct s)
   \<and> (isl (getTimestamp s) \<longleftrightarrow> isl (deconstruct s))"
  by (simp add: getTimestamp_def deconstruct_def split: sum.splits)

subsection \<open>Durations\<close>

text \<open>
  C7: for two valid snowflake strings, that is strings that parse to integers \<open>m\<close> and \<open>n\<close>
  from 0 to \<open>2 ^ 64 - 1\<close>, the timestamps are the integers \<open>(m >> 22) + EPOCH\<close> and
  \<open>(n >> 22) + EPOCH\<close>, \<open>calculateDuration(a, b)\<close> is the absolute value of their
  difference, a non-negative integer, and \<open>calculateDuration(b, a)\<close> is the same.
\<close>

theorem calculateDuration_symmetric:
  assumes "StringToBigInt a = Some m" "0 \<le> m" "m < 2 ^ 64"
    and "StringToBigInt b = Some n" "0 \<le> n" "n < 2 ^ 64"
  shows "getTimestamp a = Inr (Fin (of_int (drop_bit 22 m + EPOCH)))
         \<and> getTimestamp b = Inr (Fin (of_int (drop_bit 22 n + EPOCH)))
         \<and> calculateDuration a b
             = Inr (Fin (of_int \<bar>(drop_bit 22 m + EPOCH) - (drop_bit 22 n + EPOCH)\<bar>))
         \<and> calculateDuration b a = calculateDuration a b"
proof -
  define ta where "ta = drop_bit 22 m + EPOCH"
  define tb where "tb = drop_bit 22 n + EPOCH"
  note A = getTimestamp_snowflake [OF assms(1,2,3)]
  note B = getTimestamp_snowflake [OF assms(4,5,6)]
  have ga: "getTimestamp a = Inr (Fin (of_int ta))" using A(1) by (simp add: ta_def)
  have gb: "getTimestamp b = Inr (Fin (of_int tb))" using B(1) by (simp add: tb_def)
  have "\<bar>ta - tb\<bar> < 2 ^ 53" "\<bar>tb - ta\<bar> < 2 ^ 53"
    using A(2,3) B(2,3) by (simp_all add: ta_def tb_def del: drop_bit_nonnegative_int_iff)
  then have s: "num_sub (Fin (of_int ta)) (Fin (of_int tb)) = Fin (of_int (ta - tb))"
    "num_sub (Fin (of_int tb)) (Fin (of_int ta)) = Fin (of_int (tb - ta))"
    by (simp_all only: num_sub_exact)
  have ab: "calculateDuration a b = Inr (Fin (of_int \<bar>ta - tb\<bar>))"
    unfolding calculateDuration_def ga gb by (simp add: s)
  have ba: "calculateDuration b a = Inr (Fin (of_int \<bar>ta - tb\<bar>))"
    unfolding calculateDuration_def ga gb by (simp add: s abs_minus_commute)
  show ?thesis using ga gb ab ba unfolding ta_def tb_def by simp
qed

theorem calculateDuration_symmetric_witness:
  "StringToBigInt ''4194435072'' = Some 4194435072 \<and> StringToBigInt ''0'' = Some 0
   \<and> getTimestamp ''4194435072'' = Inr (Fin 1420070401000)
   \<and> getTimestamp ''0'' = Inr (Fin 1420070400000)
   \<and> calculateDuration ''4194435072'' ''0'' = Inr (Fin 1000)
   \<and> calculateDuration ''0'' ''4194435072'' = Inr (Fin 1000)"
  using calculateDuration_symmetric [OF StringToBigInt_scenario _ _ StringToBigInt_literal_0]
    StringToBigInt_scenario StringToBigInt_literal_0
  by (simp add: drop_bit_eq_div EPOCH_def)

subsection \<open>The binary rendering\<close>

text \<open>
  C8, as amended: for every string that parses to an integer \<open>n\<close> from 0 to \<open>2 ^ 64 - 1\<close>,
  \<open>deconstruct\<close> returns, its \<open>binary\<close> has exactly 64 characters, each \<open>0\<close> or \<open>1\<close>, and
  read as a binary literal (\<open>BigInt("0b" + binary)\<close>) it is \<open>n\<close> again.
\<close>

theorem binary_rendering:
  assumes "StringToBigInt s = Some n" "0 \<le> n" "n < 2 ^ 64"
  shows "\<exists>d. deconstruct s = Inr d \<and> length (binary d) = 64
           \<and> set (binary d) \<subseteq> {CHR ''0'', CHR ''1''}
           \<and> StringToBigInt (''0b'' @ binary d) = Some n"
proof -
  let ?d = "digits_of 2 (nat n)"
  have "nat n < 2 ^ 64" using assms(2,3) by (simp add: nat_less_iff)
  then have l: "length ?d \<le> 64" by (intro digits_of_length) simp_all
  have b: "BigInt_toString 2 n = ?d" using assms(2) by (simp add: BigInt_toString_def)
  have len: "length (padStart 64 (CHR ''0'') (BigInt_toString 2 n)) = 64"
    using l by (simp add: padStart_def b)
  have chars: "set (padStart 64 (CHR ''0'') (BigInt_toString 2 n)) \<subseteq> {CHR ''0'', CHR ''1''}"
    using digits_of_binary_chars [of "nat n"] by (auto simp: padStart_def b)
  obtain d where d: "deconstruct s = Inr d"
    and bd: "binary d = padStart 64 (CHR ''0'') (BigInt_toString 2 n)"
    using assms(1) by (simp add: deconstruct_def StringToBigInt_or_throw_def)
  show ?thesis
    using d len chars StringToBigInt_binary [OF assms(2)] unfolding bd [symmetric] by blast
qed

theorem binary_rendering_witness:
  "StringToBigInt ''4194435072'' = Some 4194435072
   \<and> (\<exists>d. deconstruct ''4194435072'' = Inr d \<and> length (binary d) = 64
          \<and> set (binary d) \<subseteq> {CHR ''0'', CHR ''1''}
          \<and> StringToBigInt (''0b'' @ binary d) = Some 4194435072)"
  using binary_rendering [OF StringToBigInt_scenario] StringToBigInt_scenario by simp

text \<open>
  Outside that range the rendering is not 64 binary digits: \<open>2 ^ 64\<close> gives 65
  characters, and \<open>-1\<close> gives a minus sign after the padding.
\<close>

theorem binary_rendering_counterexample:
  "map_sum id (length \<circ> binary) (deconstruct ''18446744073709551616'') = Inr 65
   \<and> map_sum id binary (deconstruct ''-1'')
       = Inr ''00000000000000000000000000000000000000000000000000000000000000-1''"
proof -
  have a: "map_sum id (length \<circ> binary) (deconstruct (BigInt_toString 10 18446744073709551616)) = Inr 65"
    unfolding deconstruct_toString binary_2_pow_64 by (simp add: padStart_def)
  have b: "map_sum id binary (deconstruct (BigInt_toString 10 (- 1)))
       = Inr ''00000000000000000000000000000000000000000000000000000000000000-1''"
    unfolding deconstruct_toString binary_minus_1 by (simp add: padStart_def eval_nat_numeral)
  show ?thesis using a b unfolding toString_2_pow_64 toString_minus_1 by simp
qed

subsection \<open>The range of the counter\<close>

text \<open>
  C9: the counter starts in the range from 0 to 4095; if it is in that range before a
  call of any function of the module, with any argument, it is in that range after the
  call; and every call other than \<open>generate\<close> leaves the counter as it was.
\<close>

theorem counter_stays_in_range:
  assumes "0 \<le> inc" "inc \<le> 4095"
  shows "0 \<le> initial_increment \<and> initial_increment \<le> 4095
         \<and> 0 \<le> snd (call_module c now inc) \<and> snd (call_module c now inc) \<le> 4095
         \<and> ((\<forall>arg. c \<noteq> Generate arg) \<longrightarrow> snd (call_module c now inc) = inc)"
proof (cases c)
  case (Generate arg)
  then show ?thesis
    using generate_counter_range [OF assms, of arg now]
    by (cases "generate arg now inc") (simp add: initial_increment_def)
qed (use assms in \<open>simp_all add: initial_increment_def\<close>)

theorem counter_stays_in_range_witness:
  "(0::int) \<le> 4095 \<and> (4095::int) \<le> 4095
   \<and> snd (call_module (Generate (JSNumber (Fin 1420070401000))) 0 4095) = 1
   \<and> snd (call_module (Deconstruct ''4194435072'') 0 4095) = 4095"
proof -
  have "snd (call_module (Generate (JSNumber (Fin 1420070401000))) 0 4095) = 1"
    using generate_number_ok [of 1420070401000 0 4095] by simp
  then show ?thesis
    using counter_stays_in_range [of 4095 "Generate (JSNumber (Fin 1420070401000))" 0]
      counter_stays_in_range [of 4095 "Deconstruct ''4194435072''" 0]
    by simp
qed

subsection \<open>Strings of white space\<close>

text \<open>
  C10: on the empty string and on every string of white space only, \<open>deconstruct\<close> and
  \<open>getTimestamp\<close> return without an error, as for the integer 0: the timestamp is
  \<open>EPOCH\<close>, and workerId, processId and increment are 0.
\<close>

theorem whitespace_is_zero:
  assumes "\<forall>c\<in>set s. is_whitespace c"
  shows "deconstruct s
           = Inr \<lparr> timestamp = Fin (of_int EPOCH), workerId = Fin 0, processId = Fin 0,
                   increment = Fin 0, binary = replicate 64 (CHR ''0'') \<rparr>
         \<and> getTimestamp s = Inr (Fin (of_int EPOCH))"
proof -
  have p: "StringToBigInt_or_throw s = Inr 0"
    using trim_all_whitespace [OF assms] by (simp add: StringToBigInt_or_throw_def StringToBigInt_def)
  have t: "num_add (BigIntToNumber 0) (BigIntToNumber EPOCH) = Fin (of_int EPOCH)"
    using timestamp_exact [of 0] by (simp add: EPOCH_def)
  have z: "BigIntToNumber 0 = Fin 0" using BigIntToNumber_exact [of 0] by simp
  have t': "num_add (Fin 0) (BigIntToNumber EPOCH) = Fin (of_int EPOCH)"
    using t unfolding z .
  have "BigInt_toString 2 0 = ''0''"
    by (simp add: BigInt_toString_def digits_of.simps digit_char_def)
  then have b: "padStart 64 (CHR ''0'') (BigInt_toString 2 0) = replicate 64 (CHR ''0'')"
    by (simp add: padStart_def eval_nat_numeral)
  show ?thesis
    by (simp add: deconstruct_def getTimestamp_def p t' z b del: num_add.simps)
qed

theorem whitespace_is_zero_witness:
  "deconstruct ''''
     = Inr \<lparr> timestamp = Fin 1420070400000, workerId = Fin 0, processId = Fin 0,
             increment = Fin 0, binary = replicate 64 (CHR ''0'') \<rparr>
   \<and> getTimestamp '''' = Inr (Fin 1420070400000)
   \<and> getTimestamp [CHR 0x20, CHR 0x09, CHR 0x0A, CHR 0xA0] = Inr (Fin 1420070400000)"
  using whitespace_is_zero [of "''''"] whitespace_is_zero [of "[CHR 0x20, CHR 0x09, CHR 0x0A, CHR 0xA0]"]
  by (simp add: is_whitespace_def EPOCH_def)

end
